theory Spec2Isabelle
  imports Main "HOL-Library.AList"
begin

section \<open>Values\<close>

text \<open>
  A JavaScript string is a sequence of UTF-16 code units; a literal of the source is
  written \<open>ustr ''...''\<close>.
\<close>

type_synonym jstring = "nat list"

definition ustr :: "string \<Rightarrow> jstring" where
  "ustr s = map of_char s"

text \<open>
  The values \<open>express.json()\<close> hands to a handler are the results of \<open>JSON.parse\<close>.
  A number is kept as an integer: the handlers only test a number for being falsy,
  that is zero. A field that is absent reads as \<open>undefined\<close>, modelled as \<open>None\<close>.
\<close>

datatype json =
    JNull
  | JBool bool
  | JNum int
  | JStr jstring
  | JArr "json list"
  | JObj "(jstring \<times> json) list"

text \<open>\<open>!v\<close> is \<open>\<not> truthy v\<close>; \<open>undefined\<close> is falsy.\<close>

fun truthy :: "json \<Rightarrow> bool" where
  "truthy JNull = False"
| "truthy (JBool b) = b"
| "truthy (JNum n) = (n \<noteq> 0)"
| "truthy (JStr s) = (s \<noteq> [])"
| "truthy (JArr xs) = True"
| "truthy (JObj kvs) = True"

definition truthy_opt :: "json option \<Rightarrow> bool" where
  "truthy_opt v = (case v of None \<Rightarrow> False | Some x \<Rightarrow> truthy x)"

text \<open>
  \<open>String.prototype.trim\<close> removes the code units of WhiteSpace and LineTerminator
  from both ends: TAB, LF, VT, FF, CR, SP, NBSP, U+1680, U+2000 to U+200A, U+2028,
  U+2029, U+202F, U+205F, U+3000 and U+FEFF.
\<close>

definition is_ws :: "nat \<Rightarrow> bool" where
  "is_ws c = (c \<in> {9, 10, 11, 12, 13, 32, 160, 5760, 8232, 8233, 8239, 8287, 12288, 65279}
              \<or> (8192 \<le> c \<and> c \<le> 8202))"

definition trim :: "jstring \<Rightarrow> jstring" where
  "trim s = rev (dropWhile is_ws (rev (dropWhile is_ws s)))"

text \<open>
  A handler either sends a response (\<open>res.status(n).json(body)\<close>, status 200 when
  \<open>status\<close> is not called) or throws; an exception that escapes a handler is left to
  the framework.
\<close>

datatype exn = TypeError

record response =
  resp_status :: nat
  resp_body :: json

type_synonym outcome = "exn + response"

definition reply :: "nat \<Rightarrow> (jstring \<times> json) list \<Rightarrow> outcome" where
  "reply code props = Inr \<lparr>resp_status = code, resp_body = JObj props\<rparr>"

definition fail :: "nat \<Rightarrow> string \<Rightarrow> outcome" where
  "fail code msg = reply code [(ustr ''ok'', JBool False), (ustr ''error'', JStr (ustr msg))]"

section \<open>Config store\<close>

text \<open>
  \<open>configs.json\<close> holds one JSON object from config name to rule array. It starts as
  \<open>{}\<close> and is only rewritten by \<open>writeConfigs\<close>, whose values have passed
  \<open>Array.isArray\<close>, so every own value is an array. The document is modelled by the
  own properties of the object \<open>readConfigs\<close> returns, in insertion order, and
  \<open>writeConfigs\<close> stores the own properties back (\<open>JSON.stringify\<close> writes own
  enumerable properties only).
\<close>

type_synonym store = "(jstring \<times> json list) list"

text \<open>
  \<open>readConfigs()\<close> returns an ordinary object, whose prototype is \<open>Object.prototype\<close>.
  Reading \<open>configs[name]\<close> gives the own property when there is one, and otherwise the
  member of \<open>Object.prototype\<close> of that name: a function, or for \<open>__proto__\<close> the
  prototype object itself. All of these are truthy.
\<close>

definition object_prototype_names :: "jstring list" where
  "object_prototype_names = map ustr
     [''constructor'', ''__defineGetter__'', ''__defineSetter__'', ''hasOwnProperty'',
      ''__lookupGetter__'', ''__lookupSetter__'', ''isPrototypeOf'',
      ''propertyIsEnumerable'', ''toString'', ''valueOf'', ''__proto__'',
      ''toLocaleString'']"

datatype property = Undefined | Own "json list" | ProtoFunction | ProtoObject

definition get_prop :: "store \<Rightarrow> jstring \<Rightarrow> property" where
  "get_prop configs name =
     (case map_of configs name of
        Some rules \<Rightarrow> Own rules
      | None \<Rightarrow>
          if name = ustr ''__proto__'' then ProtoObject
          else if name \<in> set object_prototype_names then ProtoFunction
          else Undefined)"

text \<open>
  \<open>configs[key] = rules\<close>: an own property is overwritten. Without one, the key
  \<open>__proto__\<close> reaches the setter of \<open>Object.prototype\<close>, which makes the array the
  prototype of \<open>configs\<close> and adds no own property; any other key becomes a new own
  property (the inherited members are writable data properties).
\<close>

definition set_prop :: "jstring \<Rightarrow> json list \<Rightarrow> store \<Rightarrow> store" where
  "set_prop key rules configs =
     (if key = ustr ''__proto__'' \<and> map_of configs key = None then configs
      else AList.update key rules configs)"

text \<open>\<open>delete configs[name]\<close> removes an own property and does nothing otherwise.\<close>

definition delete_prop :: "jstring \<Rightarrow> store \<Rightarrow> store" where
  "delete_prop name configs = AList.delete name configs"

text \<open>\<open>GET /api/configs/:name\<close>. A function-valued \<open>rules\<close> is left out by \<open>res.json\<close>.\<close>

definition get_config :: "jstring \<Rightarrow> store \<Rightarrow> outcome" where
  "get_config name configs =
     (case get_prop configs name of
        Undefined \<Rightarrow> fail 404 ''Config not found''
      | Own rules \<Rightarrow>
          reply 200 [(ustr ''ok'', JBool True), (ustr ''name'', JStr name),
                     (ustr ''rules'', JArr rules)]
      | ProtoFunction \<Rightarrow>
          reply 200 [(ustr ''ok'', JBool True), (ustr ''name'', JStr name)]
      | ProtoObject \<Rightarrow>
          reply 200 [(ustr ''ok'', JBool True), (ustr ''name'', JStr name),
                     (ustr ''rules'', JObj [])])"

text \<open>
  \<open>POST /api/configs\<close> with body \<open>{name, rules}\<close>. \<open>name.trim\<close> is \<open>undefined\<close> on
  every truthy value that is not a string, and calling it throws.
\<close>

record save_body =
  sb_name :: "json option"
  sb_rules :: "json option"

definition save_config :: "save_body \<Rightarrow> store \<Rightarrow> outcome \<times> store" where
  "save_config b configs =
     (if \<not> truthy_opt (sb_name b) then (fail 400 ''Name is required'', configs)
      else case sb_name b of
        Some (JStr nm) \<Rightarrow>
          if trim nm = [] then (fail 400 ''Name is required'', configs)
          else (case sb_rules b of
                  Some (JArr rs) \<Rightarrow>
                    (reply 200 [(ustr ''ok'', JBool True), (ustr ''name'', JStr (trim nm))],
                     set_prop (trim nm) rs configs)
                | _ \<Rightarrow> (fail 400 ''Rules array is required'', configs))
      | _ \<Rightarrow> (Inl TypeError, configs))"

text \<open>\<open>DELETE /api/configs/:name\<close>.\<close>

definition delete_config :: "jstring \<Rightarrow> store \<Rightarrow> outcome \<times> store" where
  "delete_config name configs =
     (case get_prop configs name of
        Undefined \<Rightarrow> (fail 404 ''Config not found'', configs)
      | _ \<Rightarrow> (reply 200 [(ustr ''ok'', JBool True)], delete_prop name configs))"

section \<open>Event log and live subscribers\<close>

text \<open>
  The part of an inbound request the handlers read: \<open>req.headers\<close> (lower-cased
  names, string values) and the parsed \<open>req.body\<close>.
\<close>

record request =
  req_headers :: "(jstring \<times> jstring) list"
  req_body :: json

text \<open>
  \<open>receivedAt\<close> is the time value \<open>new Date()\<close> read (milliseconds since the epoch),
  which \<open>toISOString\<close> renders; the rendering is not modelled. A header the request
  does not carry reads as \<open>undefined\<close>.
\<close>

record event =
  ev_id :: nat
  receivedAt :: int
  ev_headers :: "(jstring \<times> jstring option) list"
  ev_body :: json

text \<open>
  The state of the process: the configs document, the array \<open>webhooks\<close>, the array
  \<open>sseClients\<close> of response objects (an object is a natural number, its identity),
  and for every response object the frames written to it so far, one
  \<open>data: <json>\n\n\<close> frame per event.
\<close>

record state =
  configs_file :: store
  webhooks :: "event list"
  sseClients :: "nat list"
  written :: "nat \<Rightarrow> event list"

definition init :: "store \<Rightarrow> state" where
  "init cfg = \<lparr>configs_file = cfg, webhooks = [], sseClients = [], written = (\<lambda>_. [])\<rparr>"

definition write_frame :: "event \<Rightarrow> nat \<Rightarrow> (nat \<Rightarrow> event list) \<Rightarrow> (nat \<Rightarrow> event list)" where
  "write_frame e client w = w(client := w client @ [e])"

text \<open>\<open>POST /api/webhook/receive\<close>; \<open>now\<close> is what \<open>new Date()\<close> reads.\<close>

definition make_event :: "request \<Rightarrow> int \<Rightarrow> state \<Rightarrow> event" where
  "make_event req now s =
     \<lparr>ev_id = length (webhooks s) + 1,
      receivedAt = now,
      ev_headers =
        [(ustr ''content-type'', map_of (req_headers req) (ustr ''content-type'')),
         (ustr ''user-agent'', map_of (req_headers req) (ustr ''user-agent''))],
      ev_body = req_body req\<rparr>"

definition receive :: "request \<Rightarrow> int \<Rightarrow> state \<Rightarrow> outcome \<times> state" where
  "receive req now s =
     (let e = make_event req now s;
          s1 = s\<lparr>webhooks := webhooks s @ [e]\<rparr>;
          s2 = s1\<lparr>written := fold (write_frame e) (sseClients s1) (written s1)\<rparr>
      in (reply 200 [(ustr ''ok'', JBool True), (ustr ''id'', JNum (int (ev_id e)))], s2))"

text \<open>
  \<open>GET /api/events\<close> on the response object \<open>res\<close>: the backlog is written, then
  \<open>res\<close> is pushed. The response stays open, so no reply is sent.
\<close>

definition events :: "nat \<Rightarrow> state \<Rightarrow> state" where
  "events res s =
     (let s1 = s\<lparr>written := fold (\<lambda>e. write_frame e res) (webhooks s) (written s)\<rparr>
      in s1\<lparr>sseClients := sseClients s1 @ [res]\<rparr>)"

text \<open>The \<open>close\<close> callback: \<open>indexOf\<close> (\<open>None\<close> for -1), then \<open>splice(idx, 1)\<close>.\<close>

fun indexOf :: "nat list \<Rightarrow> nat \<Rightarrow> nat option" where
  "indexOf [] x = None"
| "indexOf (y # ys) x = (if y = x then Some 0 else map_option Suc (indexOf ys x))"

definition splice1 :: "nat \<Rightarrow> nat list \<Rightarrow> nat list" where
  "splice1 idx xs = take idx xs @ drop (Suc idx) xs"

definition close :: "nat \<Rightarrow> state \<Rightarrow> state" where
  "close res s =
     (case indexOf (sseClients s) res of
        None \<Rightarrow> s
      | Some idx \<Rightarrow> s\<lparr>sseClients := splice1 idx (sseClients s)\<rparr>)"

text \<open>
  One callback runs at a time, to its end. A run of the process is a list of actions;
  \<open>run\<close> returns each action with the reply it got (none for the stream and for the
  close callback) and the final state. The listing and relay handlers write none of
  this state and are not actions.
\<close>

datatype action =
    GetConfig jstring
  | SaveConfig save_body
  | DeleteConfig jstring
  | Receive request int
  | Events nat
  | Close nat

fun step :: "action \<Rightarrow> state \<Rightarrow> outcome option \<times> state" where
  "step (GetConfig n) s = (Some (get_config n (configs_file s)), s)"
| "step (SaveConfig b) s =
     (let (r, cfg) = save_config b (configs_file s) in (Some r, s\<lparr>configs_file := cfg\<rparr>))"
| "step (DeleteConfig n) s =
     (let (r, cfg) = delete_config n (configs_file s) in (Some r, s\<lparr>configs_file := cfg\<rparr>))"
| "step (Receive req now) s = (let (r, s') = receive req now s in (Some r, s'))"
| "step (Events res) s = (None, events res s)"
| "step (Close res) s = (None, close res s)"

fun run :: "action list \<Rightarrow> state \<Rightarrow> (action \<times> outcome option) list \<times> state" where
  "run [] s = ([], s)"
| "run (a # as) s =
     (let (r, s') = step a s; (log, s'') = run as s' in ((a, r) # log, s''))"

fun is_Receive :: "action \<Rightarrow> bool" where
  "is_Receive (Receive req now) = True"
| "is_Receive a = False"

definition receive_replies :: "action list \<Rightarrow> state \<Rightarrow> outcome option list" where
  "receive_replies acts s = map snd (filter (\<lambda>(a, r). is_Receive a) (fst (run acts s)))"

text \<open>The clock readings of a run, one for each inbound webhook, in arrival order.\<close>

fun clock_readings :: "action list \<Rightarrow> int list" where
  "clock_readings [] = []"
| "clock_readings (Receive req now # as) = now # clock_readings as"
| "clock_readings (a # as) = clock_readings as"

section \<open>Relay\<close>

text \<open>
  \<open>POST /api/webhook/send\<close>. The remote side is a parameter: \<open>fetch url payload\<close> is
  the error message when \<open>fetch\<close> or \<open>response.text()\<close> throws, and the status,
  status text and body text otherwise; \<open>parse\<close> is \<open>JSON.parse\<close>, \<open>None\<close> when it
  throws. The handler returns its reply and the outbound calls it made.
\<close>

record send_body =
  sb_url :: "json option"
  sb_payload :: "json option"

record remote =
  rem_status :: nat
  rem_statusText :: jstring
  rem_text :: jstring

text \<open>\<open>payload ?? {}\<close>: \<open>undefined\<close> and \<open>null\<close> give the empty object.\<close>

definition payload_or_empty :: "json option \<Rightarrow> json" where
  "payload_or_empty p = (case p of None \<Rightarrow> JObj [] | Some JNull \<Rightarrow> JObj [] | Some v \<Rightarrow> v)"

definition send_webhook ::
  "(json \<Rightarrow> json \<Rightarrow> jstring + remote) \<Rightarrow> (jstring \<Rightarrow> json option) \<Rightarrow> send_body
     \<Rightarrow> outcome \<times> (json \<times> json) list" where
  "send_webhook fetch parse b =
     (case sb_url b of
        None \<Rightarrow> (fail 400 ''Missing target URL'', [])
      | Some url \<Rightarrow>
          if \<not> truthy url then (fail 400 ''Missing target URL'', [])
          else
            let payload = payload_or_empty (sb_payload b)
            in (case fetch url payload of
                  Inl msg \<Rightarrow>
                    reply 502 [(ustr ''ok'', JBool False), (ustr ''error'', JStr msg)]
                | Inr r \<Rightarrow>
                    reply 200
                      [(ustr ''ok'', JBool True),
                       (ustr ''status'', JNum (int (rem_status r))),
                       (ustr ''statusText'', JStr (rem_statusText r)),
                       (ustr ''body'',
                          (case parse (rem_text r) of
                             Some v \<Rightarrow> v | None \<Rightarrow> JStr (rem_text r)))],
                [(url, payload)]))"

section \<open>Config store: lookup, save and delete\<close>

lemma ustr_code: "ustr [] = []" "ustr (c # cs) = of_char c # ustr cs"
  by (simp_all add: ustr_def)

lemma map_of_set_prop:
  "map_of (set_prop k rs cfg) n =
     (if k = ustr ''__proto__'' \<and> map_of cfg k = None then map_of cfg n
      else if n = k then Some rs else map_of cfg n)"
  by (auto simp: set_prop_def update_conv')

lemma map_of_delete_prop:
  "map_of (delete_prop k cfg) n = (if n = k then None else map_of cfg n)"
  by (simp add: delete_prop_def delete_conv')

lemma trim_nonempty: "trim nm \<noteq> [] \<Longrightarrow> nm \<noteq> []"
  by (auto simp: trim_def)

lemma save_config_string:
  "save_config \<lparr>sb_name = Some (JStr nm), sb_rules = rl\<rparr> cfg =
     (if trim nm = [] then (fail 400 ''Name is required'', cfg)
      else case rl of
             Some (JArr rs) \<Rightarrow>
               (reply 200 [(ustr ''ok'', JBool True), (ustr ''name'', JStr (trim nm))],
                set_prop (trim nm) rs cfg)
           | _ \<Rightarrow> (fail 400 ''Rules array is required'', cfg))"
  using trim_nonempty[of nm] by (auto simp: save_config_def truthy_opt_def trim_def)

text \<open>
  Saving under a name other than \<open>__proto__\<close> and reading it back returns the rules,
  whatever was stored before.
\<close>

lemma save_then_get:
  assumes "trim nm \<noteq> []" "trim nm \<noteq> ustr ''__proto__''"
  shows "save_config \<lparr>sb_name = Some (JStr nm), sb_rules = Some (JArr rs)\<rparr> cfg =
           (reply 200 [(ustr ''ok'', JBool True), (ustr ''name'', JStr (trim nm))],
            set_prop (trim nm) rs cfg)"
    and "get_config (trim nm) (set_prop (trim nm) rs cfg) =
           reply 200 [(ustr ''ok'', JBool True), (ustr ''name'', JStr (trim nm)),
                      (ustr ''rules'', JArr rs)]"
  using assms by (simp_all add: save_config_string get_config_def get_prop_def map_of_set_prop)

text \<open>The two examples of the spec: the name is stored trimmed, and a save replaces.\<close>

lemma save_examples:
  "snd (save_config \<lparr>sb_name = Some (JStr (ustr ''  foo  '')), sb_rules = Some (JArr [])\<rparr> []) =
     [(ustr ''foo'', [])]"
  "get_config (ustr ''foo'') [(ustr ''foo'', [])] =
     reply 200 [(ustr ''ok'', JBool True), (ustr ''name'', JStr (ustr ''foo'')),
                (ustr ''rules'', JArr [])]"
  "get_config (ustr ''x'')
     (snd (save_config \<lparr>sb_name = Some (JStr (ustr ''x'')), sb_rules = Some (JArr [JNum 3])\<rparr>
        (snd (save_config \<lparr>sb_name = Some (JStr (ustr ''x'')),
                           sb_rules = Some (JArr [JNum 1, JNum 2])\<rparr> [])))) =
     reply 200 [(ustr ''ok'', JBool True), (ustr ''name'', JStr (ustr ''x'')),
                (ustr ''rules'', JArr [JNum 3])]"
  by (simp_all add: save_config_string get_config_def get_prop_def set_prop_def trim_def
      is_ws_def ustr_code)

text \<open>
  C3: for every name whose trim is non-empty and every rules list, \<open>save(name, rules)\<close>
  followed by \<open>get(trim(name))\<close> returns exactly \<open>rules\<close>, and \<open>save\<close> returns the
  trimmed name. For the name \<open>__proto__\<close> the code does not: on an empty store
  \<open>save\<close> answers \<open>{ok: true, name: "__proto__"}\<close> and stores nothing, and the \<open>get\<close>
  that follows answers with \<open>rules: {}\<close>, not with the rules \<open>[1, 2]\<close> that were saved.
\<close>

theorem save_proto_then_get:
  "trim (ustr ''__proto__'') \<noteq> [] \<and>
   save_config \<lparr>sb_name = Some (JStr (ustr ''__proto__'')),
                sb_rules = Some (JArr [JNum 1, JNum 2])\<rparr> [] =
     (reply 200 [(ustr ''ok'', JBool True), (ustr ''name'', JStr (ustr ''__proto__''))], []) \<and>
   get_config (trim (ustr ''__proto__'')) [] =
     reply 200 [(ustr ''ok'', JBool True), (ustr ''name'', JStr (ustr ''__proto__'')),
                (ustr ''rules'', JObj [])] \<and>
   get_config (trim (ustr ''__proto__'')) [] \<noteq>
     reply 200 [(ustr ''ok'', JBool True), (ustr ''name'', JStr (ustr ''__proto__'')),
                (ustr ''rules'', JArr [JNum 1, JNum 2])]"
  by (simp add: save_config_string get_config_def get_prop_def set_prop_def trim_def
      is_ws_def reply_def ustr_code)

text \<open>
  With a name that is absent, falsy or a string, \<open>save\<close> validates as the spec says:
  400 and an unchanged store for a missing, empty or whitespace-only name and for rules
  that are missing or not an array; an empty array is accepted.
\<close>

lemma save_invalid:
  "\<not> truthy_opt nmv \<Longrightarrow>
     save_config \<lparr>sb_name = nmv, sb_rules = rl\<rparr> cfg = (fail 400 ''Name is required'', cfg)"
  "trim nm = [] \<Longrightarrow>
     save_config \<lparr>sb_name = Some (JStr nm), sb_rules = rl\<rparr> cfg =
       (fail 400 ''Name is required'', cfg)"
  "trim nm \<noteq> [] \<Longrightarrow> \<forall>rs. rl \<noteq> Some (JArr rs) \<Longrightarrow>
     save_config \<lparr>sb_name = Some (JStr nm), sb_rules = rl\<rparr> cfg =
       (fail 400 ''Rules array is required'', cfg)"
  "trim nm \<noteq> [] \<Longrightarrow>
     fst (save_config \<lparr>sb_name = Some (JStr nm), sb_rules = Some (JArr [])\<rparr> cfg) =
       reply 200 [(ustr ''ok'', JBool True), (ustr ''name'', JStr (trim nm))]"
     apply (simp add: save_config_def)
    apply (simp add: save_config_string)
   apply (simp add: save_config_string split: option.splits json.splits)
  apply (simp add: save_config_string)
  done

text \<open>
  C4: for every request to the config save operation, if the name is missing, empty or
  whitespace-only after trimming, or if rules is missing or not a list, the operation
  fails with InvalidInput (400, body \<open>{ok: false, error}\<close>) and the store is left
  unchanged. For the body \<open>{name: 5}\<close>, whose rules are missing, the code sends no 400:
  \<open>name.trim\<close> is not a function and the handler throws.
\<close>

theorem save_number_name_throws:
  "save_config \<lparr>sb_name = Some (JNum 5), sb_rules = None\<rparr> cfg = (Inl TypeError, cfg) \<and>
   (\<forall>code msg. Inl TypeError \<noteq> fail code msg)"
  by (simp add: save_config_def truthy_opt_def fail_def reply_def)

text \<open>
  For a name that \<open>Object.prototype\<close> does not carry, absence gives 404 from \<open>get\<close> and
  \<open>delete\<close>; for every name the store holds, \<open>get\<close> returns its rules and \<open>delete\<close>
  removes it.
\<close>

lemma absent_ordinary_name:
  assumes "n \<notin> set object_prototype_names" "map_of cfg n = None"
  shows "get_config n cfg = fail 404 ''Config not found''"
    and "delete_config n cfg = (fail 404 ''Config not found'', cfg)"
  using assms
  by (auto simp: get_config_def delete_config_def get_prop_def object_prototype_names_def)

lemma present_name:
  assumes "map_of cfg n = Some rs"
  shows "get_config n cfg =
           reply 200 [(ustr ''ok'', JBool True), (ustr ''name'', JStr n),
                      (ustr ''rules'', JArr rs)]"
    and "delete_config n cfg = (reply 200 [(ustr ''ok'', JBool True)], delete_prop n cfg)"
    and "map_of (delete_prop n cfg) n = None"
  using assms
  by (simp_all add: get_config_def delete_config_def get_prop_def map_of_delete_prop)

text \<open>
  C5: for every name absent from the config store, \<open>get(name)\<close> fails with NotFound
  (404) and \<open>delete(name)\<close> fails with NotFound leaving the store unchanged. For the
  name \<open>constructor\<close> on an empty store the code answers both with 200: the test
  \<open>!configs[name]\<close> finds the inherited member.
\<close>

theorem inherited_name_found:
  "map_of ([] :: store) (ustr ''constructor'') = None \<and>
   get_config (ustr ''constructor'') [] =
     reply 200 [(ustr ''ok'', JBool True), (ustr ''name'', JStr (ustr ''constructor''))] \<and>
   delete_config (ustr ''constructor'') [] = (reply 200 [(ustr ''ok'', JBool True)], []) \<and>
   get_config (ustr ''constructor'') [] \<noteq> fail 404 ''Config not found''"
  by (simp add: get_config_def delete_config_def get_prop_def object_prototype_names_def
      delete_prop_def fail_def reply_def ustr_code)

section \<open>The handlers on the process state\<close>

lemma fold_write_frame:
  "fold (write_frame e) cs w c = w c @ replicate (count_list cs c) e"
  by (induction cs arbitrary: w) (auto simp: write_frame_def)

lemma fold_backlog:
  "fold (\<lambda>e. write_frame e res) evs w = w(res := w res @ evs)"
  by (induction evs arbitrary: w) (auto simp: write_frame_def)

lemma indexOf_remove1:
  "(case indexOf xs x of None \<Rightarrow> xs | Some idx \<Rightarrow> splice1 idx xs) = remove1 x xs"
  by (induction xs) (auto simp: splice1_def split: option.splits)

lemma receive_fields:
  "webhooks (snd (receive req now s)) = webhooks s @ [make_event req now s]"
  "sseClients (snd (receive req now s)) = sseClients s"
  "configs_file (snd (receive req now s)) = configs_file s"
  "written (snd (receive req now s)) c =
     written s c @ replicate (count_list (sseClients s) c) (make_event req now s)"
  "fst (receive req now s) =
     reply 200 [(ustr ''ok'', JBool True), (ustr ''id'', JNum (int (length (webhooks s) + 1)))]"
  by (simp_all add: receive_def Let_def fold_write_frame make_event_def)

lemma events_fields:
  "webhooks (events res s) = webhooks s"
  "sseClients (events res s) = sseClients s @ [res]"
  "configs_file (events res s) = configs_file s"
  "written (events res s) = (written s)(res := written s res @ webhooks s)"
  by (simp_all add: events_def Let_def fold_backlog)

lemma close_fields:
  "webhooks (close res s) = webhooks s"
  "sseClients (close res s) = remove1 res (sseClients s)"
  "configs_file (close res s) = configs_file s"
  "written (close res s) = written s"
  using indexOf_remove1[of "sseClients s" res]
  by (auto simp: close_def split: option.splits)

lemma step_webhooks:
  "webhooks (snd (step a s)) =
     (case a of Receive req now \<Rightarrow> webhooks s @ [make_event req now s] | _ \<Rightarrow> webhooks s)"
  by (cases a) (simp_all add: receive_fields events_fields close_fields case_prod_beta)

lemma step_sseClients:
  "sseClients (snd (step a s)) =
     (case a of Events res \<Rightarrow> sseClients s @ [res]
              | Close res \<Rightarrow> remove1 res (sseClients s)
              | _ \<Rightarrow> sseClients s)"
  by (cases a) (simp_all add: receive_fields events_fields close_fields case_prod_beta)

lemma step_written:
  "written (snd (step a s)) c =
     (case a of Receive req now \<Rightarrow>
                  written s c @ replicate (count_list (sseClients s) c) (make_event req now s)
              | Events res \<Rightarrow> (if c = res then written s c @ webhooks s else written s c)
              | _ \<Rightarrow> written s c)"
  by (cases a) (simp_all add: receive_fields events_fields close_fields case_prod_beta)

lemma run_Cons_state: "snd (run (a # as) s) = snd (run as (snd (step a s)))"
  by (simp add: case_prod_beta)

lemma run_Nil_state: "snd (run [] s) = s"
  by simp

lemma run_append_state: "snd (run (as @ bs) s) = snd (run bs (snd (run as s)))"
  by (induction as arbitrary: s) (simp_all add: run_Cons_state run_Nil_state del: run.simps)

section \<open>Event ids\<close>

lemma step_reply_receive:
  "fst (step (Receive req now) s) =
     Some (reply 200 [(ustr ''ok'', JBool True), (ustr ''id'', JNum (int (length (webhooks s) + 1)))])"
  by (simp add: case_prod_beta receive_fields)

lemma step_length_webhooks:
  "length (webhooks (snd (step a s))) = length (webhooks s) + (if is_Receive a then 1 else 0)"
  by (cases a) (simp_all add: step_webhooks del: step.simps)

lemma run_length_webhooks:
  "length (webhooks (snd (run acts s))) = length (webhooks s) + length (filter is_Receive acts)"
  by (induction acts arbitrary: s)
     (simp_all add: run_Cons_state run_Nil_state step_length_webhooks del: run.simps step.simps)

lemma receive_replies_Cons:
  "receive_replies (a # as) s =
     (if is_Receive a then [fst (step a s)] else []) @ receive_replies as (snd (step a s))"
  by (simp add: receive_replies_def case_prod_beta)

lemma receive_replies_from:
  "receive_replies acts s =
     map (\<lambda>i. Some (reply 200 [(ustr ''ok'', JBool True), (ustr ''id'', JNum (int i))]))
       [Suc (length (webhooks s)) ..< Suc (length (webhooks s) + length (filter is_Receive acts))]"
proof (induction acts arbitrary: s)
  case Nil
  show ?case by (simp add: receive_replies_def)
next
  case (Cons a as)
  let ?k = "length (webhooks s)" and ?m = "length (filter is_Receive as)"
  show ?case
  proof (cases "is_Receive a")
    case True
    then obtain req now where a: "a = Receive req now" by (cases a) simp_all
    have h: "[Suc ?k ..< Suc (Suc (?k + ?m))] = Suc ?k # [Suc (Suc ?k) ..< Suc (Suc (?k + ?m))]"
      by (rule upt_conv_Cons) simp
    have len: "length (webhooks (snd (step a s))) = Suc ?k"
      using True by (simp add: step_length_webhooks del: step.simps)
    show ?thesis
      unfolding receive_replies_Cons Cons.IH len
      using True by (simp add: a step_reply_receive h del: step.simps upt_Suc)
  next
    case False
    have len: "length (webhooks (snd (step a s))) = ?k"
      using False by (simp add: step_length_webhooks del: step.simps)
    show ?thesis
      unfolding receive_replies_Cons Cons.IH len
      using False by (simp del: step.simps upt_Suc)
  qed
qed

lemma step_ids:
  "map ev_id (webhooks s) = [1 ..< Suc (length (webhooks s))] \<Longrightarrow>
   map ev_id (webhooks (snd (step a s))) = [1 ..< Suc (length (webhooks (snd (step a s))))]"
proof -
  assume ids: "map ev_id (webhooks s) = [1 ..< Suc (length (webhooks s))]"
  have up: "[Suc 0 ..< Suc (Suc (length (webhooks s)))] =
              [Suc 0 ..< Suc (length (webhooks s))] @ [Suc (length (webhooks s))]"
    by simp
  show ?thesis
    by (cases a) (simp_all add: step_webhooks make_event_def ids up del: step.simps upt_Suc)
qed

lemma run_ids:
  "map ev_id (webhooks s) = [1 ..< Suc (length (webhooks s))] \<Longrightarrow>
   map ev_id (webhooks (snd (run acts s))) = [1 ..< Suc (length (webhooks (snd (run acts s))))]"
proof (induction acts arbitrary: s)
  case Nil then show ?case by simp
next
  case (Cons a as)
  show ?case unfolding run_Cons_state
    by (rule Cons.IH) (rule step_ids[OF Cons.prems])
qed

lemma init_fields:
  "webhooks (init cfg) = []" "sseClients (init cfg) = []" "written (init cfg) c = []"
  "configs_file (init cfg) = cfg"
  by (simp_all add: init_def)

lemma reachable_ids:
  "map ev_id (webhooks (snd (run acts (init cfg)))) =
     [1 ..< Suc (length (webhooks (snd (run acts (init cfg)))))]"
  by (rule run_ids) (simp add: init_fields)

lemma Max_ids:
  assumes "map ev_id evs = [1 ..< Suc (length evs)]" "evs \<noteq> []"
  shows "Max (set (map ev_id evs)) = length evs"
proof -
  have "set (map ev_id evs) = {1 .. length evs}"
    unfolding assms(1) by auto
  moreover have "1 \<le> length evs" using assms(2) by (cases evs) simp_all
  ultimately show ?thesis by (intro Max_eqI) auto
qed

text \<open>
  C1: in every run of the process from its start, whatever else happens in between, the
  replies to the inbound webhooks carry the ids 1, 2, ..., N in arrival order, N being
  the number of such calls, the log holds exactly these ids in order, and the event a
  further call appends carries the greatest id of the log plus one, or 1 when the log is
  empty.
\<close>

theorem receive_ids:
  "receive_replies acts (init cfg) =
     map (\<lambda>i. Some (reply 200 [(ustr ''ok'', JBool True), (ustr ''id'', JNum (int i))]))
       [1 ..< Suc (length (filter is_Receive acts))] \<and>
   map ev_id (webhooks (snd (run acts (init cfg)))) =
     [1 ..< Suc (length (filter is_Receive acts))] \<and>
   ev_id (last (webhooks (snd (receive req now (snd (run acts (init cfg))))))) =
     (if webhooks (snd (run acts (init cfg))) = [] then 1
      else Max (set (map ev_id (webhooks (snd (run acts (init cfg)))))) + 1)"
proof -
  let ?s = "snd (run acts (init cfg))"
  have len: "length (webhooks ?s) = length (filter is_Receive acts)"
    by (simp add: run_length_webhooks init_fields)
  have a: "receive_replies acts (init cfg) =
     map (\<lambda>i. Some (reply 200 [(ustr ''ok'', JBool True), (ustr ''id'', JNum (int i))]))
       [1 ..< Suc (length (filter is_Receive acts))]"
    by (simp add: receive_replies_from init_fields del: upt_Suc)
  have b: "map ev_id (webhooks ?s) = [1 ..< Suc (length (filter is_Receive acts))]"
    using reachable_ids[of acts cfg] by (simp only: len)
  have c: "ev_id (last (webhooks (snd (receive req now ?s)))) =
     (if webhooks ?s = [] then 1 else Max (set (map ev_id (webhooks ?s))) + 1)"
  proof (cases "webhooks ?s = []")
    case True
    then show ?thesis by (simp add: receive_fields make_event_def)
  next
    case False
    from Max_ids[OF reachable_ids False] show ?thesis
      using False by (simp add: receive_fields make_event_def)
  qed
  from a b c show ?thesis by blast
qed

theorem receive_ids_witness:
  "receive_replies
     [Receive \<lparr>req_headers = [], req_body = JNull\<rparr> 10, Events 7,
      Receive \<lparr>req_headers = [], req_body = JBool True\<rparr> 20] (init []) =
     [Some (reply 200 [(ustr ''ok'', JBool True), (ustr ''id'', JNum 1)]),
      Some (reply 200 [(ustr ''ok'', JBool True), (ustr ''id'', JNum 2)])]"
  using receive_ids[of "[Receive \<lparr>req_headers = [], req_body = JNull\<rparr> 10, Events 7,
      Receive \<lparr>req_headers = [], req_body = JBool True\<rparr> 20]" "[]"]
  by (simp add: upt_rec)

section \<open>Backlog and live stream\<close>

lemma step_untouched:
  assumes "c \<notin> set (sseClients s)" "a \<noteq> Events c"
  shows "c \<notin> set (sseClients (snd (step a s))) \<and> written (snd (step a s)) c = written s c"
  using assms
  by (cases a) (auto simp: step_sseClients step_written count_list_0_iff simp del: step.simps)

lemma run_untouched:
  "c \<notin> set (sseClients s) \<Longrightarrow> \<forall>a\<in>set acts. a \<noteq> Events c \<Longrightarrow>
   c \<notin> set (sseClients (snd (run acts s))) \<and> written (snd (run acts s)) c = written s c"
proof (induction acts arbitrary: s)
  case Nil
  then show ?case by simp
next
  case (Cons a as)
  from Cons.prems have st: "c \<notin> set (sseClients (snd (step a s)))"
      "written (snd (step a s)) c = written s c"
    using step_untouched[of c s a] by auto
  from Cons.IH[OF st(1)] Cons.prems(2) st(2) show ?case
    by (simp add: run_Cons_state del: run.simps step.simps)
qed

lemma count_list_remove1_other:
  "x \<noteq> c \<Longrightarrow> count_list (remove1 x xs) c = count_list xs c"
  by (induction xs) auto

lemma count_list_remove1_same:
  "count_list (remove1 c xs) c = count_list xs c - 1"
  by (induction xs) auto

lemma step_in_sync:
  assumes "count_list (sseClients s) c = 1" "written s c = webhooks s"
    "a \<noteq> Events c" "a \<noteq> Close c"
  shows "count_list (sseClients (snd (step a s))) c = 1 \<and>
         written (snd (step a s)) c = webhooks (snd (step a s))"
  using assms
  by (cases a)
     (auto simp: step_sseClients step_written step_webhooks count_list_remove1_other
           simp del: step.simps)

lemma run_in_sync:
  "count_list (sseClients s) c = 1 \<Longrightarrow> written s c = webhooks s \<Longrightarrow>
   \<forall>a\<in>set acts. a \<noteq> Events c \<and> a \<noteq> Close c \<Longrightarrow>
   written (snd (run acts s)) c = webhooks (snd (run acts s))"
proof (induction acts arbitrary: s)
  case Nil
  then show ?case by simp
next
  case (Cons a as)
  from Cons.prems have st: "count_list (sseClients (snd (step a s))) c = 1"
      "written (snd (step a s)) c = webhooks (snd (step a s))"
    using step_in_sync[of s c a] by auto
  from Cons.IH[OF st] Cons.prems(3) show ?case
    by (simp add: run_Cons_state del: run.simps step.simps)
qed

lemma step_webhooks_prefix:
  "take (length (webhooks s)) (webhooks (snd (step a s))) = webhooks s"
  by (cases a) (simp_all add: step_webhooks del: step.simps)

lemma run_webhooks_prefix:
  "take (length (webhooks s)) (webhooks (snd (run acts s))) = webhooks s"
proof (induction acts arbitrary: s)
  case Nil
  show ?case by simp
next
  case (Cons a as)
  let ?s1 = "snd (step a s)"
  have "length (webhooks s) \<le> length (webhooks ?s1)"
    by (simp add: step_length_webhooks del: step.simps)
  then have "take (length (webhooks s)) (webhooks (snd (run as ?s1))) =
             take (length (webhooks s)) (take (length (webhooks ?s1)) (webhooks (snd (run as ?s1))))"
    by (simp add: min_def)
  also have "\<dots> = take (length (webhooks s)) (webhooks ?s1)"
    by (simp only: Cons.IH)
  also have "\<dots> = webhooks s" by (rule step_webhooks_prefix)
  finally show ?case by (simp add: run_Cons_state del: run.simps step.simps)
qed

text \<open>
  C2: a subscriber whose response object \<open>res\<close> attaches after the run \<open>pre\<close>, which
  appended K events, has been written exactly those K events, in log order, when the
  handler returns; and after any further run \<open>post\<close> during which it stays attached,
  what has been written to it is the whole log: the K backlog events first, then every
  event published since, in publish order, each once. The ids of the log are 1, 2, ...
  in order. \<open>written\<close> records the calls of \<open>res.write\<close>; the transport below is not
  modelled.
\<close>

theorem subscriber_stream:
  assumes "\<forall>a\<in>set pre. a \<noteq> Events res"
    and "\<forall>a\<in>set post. a \<noteq> Events res \<and> a \<noteq> Close res"
  shows "written (events res (snd (run pre (init cfg)))) res = webhooks (snd (run pre (init cfg))) \<and>
         written (snd (run post (events res (snd (run pre (init cfg)))))) res =
           webhooks (snd (run post (events res (snd (run pre (init cfg)))))) \<and>
         take (length (webhooks (snd (run pre (init cfg)))))
              (webhooks (snd (run post (events res (snd (run pre (init cfg))))))) =
           webhooks (snd (run pre (init cfg))) \<and>
         map ev_id (webhooks (snd (run post (events res (snd (run pre (init cfg))))))) =
           [1 ..< Suc (length (webhooks (snd (run post (events res (snd (run pre (init cfg))))))))]"
proof -
  let ?s = "snd (run pre (init cfg))"
  let ?s1 = "events res ?s"
  let ?s2 = "snd (run post ?s1)"
  have "res \<notin> set (sseClients (init cfg))" by (simp add: init_fields)
  from run_untouched[OF this assms(1)]
  have fresh: "res \<notin> set (sseClients ?s)" and "written ?s res = written (init cfg) res"
    by blast+
  then have empty: "written ?s res = []"
    by (simp add: init_fields)
  have a: "written ?s1 res = webhooks ?s"
    by (simp add: events_fields empty)
  have cnt: "count_list (sseClients ?s1) res = 1"
    using fresh by (simp add: events_fields count_list_0_iff)
  have b: "written ?s2 res = webhooks ?s2"
    by (rule run_in_sync[OF cnt _ assms(2)]) (simp add: empty events_fields)
  have c: "take (length (webhooks ?s)) (webhooks ?s2) = webhooks ?s"
    using run_webhooks_prefix[of ?s1 post] by (simp add: events_fields)
  have "?s2 = snd (run (pre @ Events res # post) (init cfg))"
    by (simp add: run_append_state run_Cons_state del: run.simps)
  then have d: "map ev_id (webhooks ?s2) = [1 ..< Suc (length (webhooks ?s2))]"
    using reachable_ids[of "pre @ Events res # post" cfg] by simp
  from a b c d show ?thesis by blast
qed

theorem subscriber_stream_witness:
  "written (snd (run [Receive \<lparr>req_headers = [], req_body = JBool True\<rparr> 20]
             (events 7 (snd (run [Receive \<lparr>req_headers = [], req_body = JNull\<rparr> 10] (init [])))))) 7 =
     [\<lparr>ev_id = 1, receivedAt = 10,
       ev_headers = [(ustr ''content-type'', None), (ustr ''user-agent'', None)],
       ev_body = JNull\<rparr>,
      \<lparr>ev_id = 2, receivedAt = 20,
       ev_headers = [(ustr ''content-type'', None), (ustr ''user-agent'', None)],
       ev_body = JBool True\<rparr>]"
proof -
  have pre: "\<forall>a\<in>set [Receive \<lparr>req_headers = [], req_body = JNull\<rparr> 10]. a \<noteq> Events 7"
    by simp
  have post: "\<forall>a\<in>set [Receive \<lparr>req_headers = [], req_body = JBool True\<rparr> 20].
                a \<noteq> Events 7 \<and> a \<noteq> Close 7"
    by simp
  have log: "webhooks (snd (run [Receive \<lparr>req_headers = [], req_body = JBool True\<rparr> 20]
             (events 7 (snd (run [Receive \<lparr>req_headers = [], req_body = JNull\<rparr> 10] (init [])))))) =
     [\<lparr>ev_id = 1, receivedAt = 10,
       ev_headers = [(ustr ''content-type'', None), (ustr ''user-agent'', None)],
       ev_body = JNull\<rparr>,
      \<lparr>ev_id = 2, receivedAt = 20,
       ev_headers = [(ustr ''content-type'', None), (ustr ''user-agent'', None)],
       ev_body = JBool True\<rparr>]"
    by (simp add: case_prod_beta receive_fields events_fields init_fields make_event_def)
  from subscriber_stream[OF pre post, of "[]"] show ?thesis
    by (simp only: log)
qed

section \<open>Unsubscribing\<close>

lemma step_count_clients:
  "count_list (sseClients (snd (step a s))) c \<le>
     count_list (sseClients s) c + (if a = Events c then 1 else 0)"
  by (cases a)
     (auto simp: step_sseClients count_list_remove1_same count_list_remove1_other
           simp del: step.simps)

lemma run_count_clients:
  "count_list (sseClients (snd (run acts s))) c \<le>
     count_list (sseClients s) c + count_list acts (Events c)"
proof (induction acts arbitrary: s)
  case Nil
  show ?case by simp
next
  case (Cons a as)
  have "count_list (sseClients (snd (run as (snd (step a s))))) c \<le>
          count_list (sseClients (snd (step a s))) c + count_list as (Events c)"
    by (rule Cons.IH)
  also have "\<dots> \<le> count_list (sseClients s) c + (if a = Events c then 1 else 0)
                  + count_list as (Events c)"
    using step_count_clients[of a s c] by simp
  also have "\<dots> = count_list (sseClients s) c + count_list (a # as) (Events c)"
    by simp
  finally show ?case
    by (simp only: run_Cons_state)
qed

lemma indexOf_absent: "x \<notin> set xs \<Longrightarrow> indexOf xs x = None"
  by (induction xs) auto

lemma close_absent: "res \<notin> set (sseClients s) \<Longrightarrow> close res s = s"
  by (simp add: close_def indexOf_absent)

lemma close_removes:
  "count_list (sseClients s) res \<le> 1 \<Longrightarrow> res \<notin> set (sseClients (close res s))"
  by (simp add: close_fields count_list_remove1_same flip: count_list_0_iff)

text \<open>
  C7: once the close callback of a subscriber has run, nothing more is written to it,
  whatever is published afterwards, and it is no longer in the subscriber list (a
  response object is registered by at most one request); running the callback again
  changes nothing, and on a response object that is not in the list it is a no-op.
\<close>

theorem unsubscribed_gets_nothing:
  assumes "count_list pre (Events res) \<le> 1"
    and "\<forall>a\<in>set post. a \<noteq> Events res"
  shows "written (snd (run post (close res (snd (run pre (init cfg)))))) res =
           written (snd (run pre (init cfg))) res \<and>
         res \<notin> set (sseClients (snd (run post (close res (snd (run pre (init cfg))))))) \<and>
         close res (close res (snd (run pre (init cfg)))) = close res (snd (run pre (init cfg))) \<and>
         (\<forall>s. res \<notin> set (sseClients s) \<longrightarrow> close res s = s)"
proof -
  let ?s = "snd (run pre (init cfg))"
  have "count_list (sseClients ?s) res \<le> 1"
    using run_count_clients[of pre "init cfg" res] assms(1) by (simp add: init_fields)
  then have gone: "res \<notin> set (sseClients (close res ?s))"
    by (rule close_removes)
  from run_untouched[OF gone assms(2)]
  have "res \<notin> set (sseClients (snd (run post (close res ?s))))"
    and "written (snd (run post (close res ?s))) res = written (close res ?s) res"
    by blast+
  moreover have "close res (close res ?s) = close res ?s"
    using gone by (rule close_absent)
  ultimately show ?thesis
    by (simp add: close_fields close_absent)
qed

theorem unsubscribed_gets_nothing_witness:
  "written (snd (run [Receive \<lparr>req_headers = [], req_body = JNull\<rparr> 10]
             (close 7 (snd (run [Events 7] (init [])))))) 7 = [] \<and>
   close 7 (close 7 (snd (run [Events 7] (init [])))) = close 7 (snd (run [Events 7] (init []))) \<and>
   close 7 (init []) = init []"
proof -
  have pre: "count_list [Events 7] (Events 7) \<le> 1" by simp
  have post: "\<forall>a\<in>set [Receive \<lparr>req_headers = [], req_body = JNull\<rparr> 10]. a \<noteq> Events 7"
    by simp
  have w: "written (snd (run [Events 7] (init []))) 7 = []"
    by (simp add: events_fields init_fields)
  have "7 \<notin> set (sseClients (init []))" by (simp add: init_fields)
  with unsubscribed_gets_nothing[OF pre post, of "[]"] show ?thesis
    by (simp only: w) blast
qed

section \<open>Arrival timestamps\<close>

lemma step_receivedAt:
  "map receivedAt (webhooks (snd (step a s))) = map receivedAt (webhooks s) @ clock_readings [a]"
  by (cases a) (simp_all add: step_webhooks make_event_def del: step.simps)

lemma clock_readings_Cons: "clock_readings (a # as) = clock_readings [a] @ clock_readings as"
  by (cases a) simp_all

lemma run_receivedAt:
  "map receivedAt (webhooks (snd (run acts s))) = map receivedAt (webhooks s) @ clock_readings acts"
proof (induction acts arbitrary: s)
  case Nil
  show ?case by simp
next
  case (Cons a as)
  show ?case
    unfolding run_Cons_state Cons.IH step_receivedAt
    using clock_readings_Cons[of a as] by simp
qed

text \<open>
  C9 as stated, that \<open>receivedAt\<close> never decreases as the id grows, fails when the
  wall clock is set back between two calls: the handler stamps each event with what
  \<open>new Date()\<close> reads and compares it with nothing.
\<close>

theorem receivedAt_clock_step_back:
  "length (webhooks (snd (run [Receive \<lparr>req_headers = [], req_body = JNull\<rparr> 2000,
                               Receive \<lparr>req_headers = [], req_body = JNull\<rparr> 1000] (init [])))) = 2 \<and>
   ev_id (webhooks (snd (run [Receive \<lparr>req_headers = [], req_body = JNull\<rparr> 2000,
                               Receive \<lparr>req_headers = [], req_body = JNull\<rparr> 1000] (init []))) ! 0)
   < ev_id (webhooks (snd (run [Receive \<lparr>req_headers = [], req_body = JNull\<rparr> 2000,
                               Receive \<lparr>req_headers = [], req_body = JNull\<rparr> 1000] (init []))) ! 1) \<and>
   \<not> receivedAt (webhooks (snd (run [Receive \<lparr>req_headers = [], req_body = JNull\<rparr> 2000,
                               Receive \<lparr>req_headers = [], req_body = JNull\<rparr> 1000] (init []))) ! 0)
     \<le> receivedAt (webhooks (snd (run [Receive \<lparr>req_headers = [], req_body = JNull\<rparr> 2000,
                               Receive \<lparr>req_headers = [], req_body = JNull\<rparr> 1000] (init []))) ! 1)"
  by (simp add: case_prod_beta receive_fields init_fields make_event_def)

text \<open>
  C9, amended: when the clock readings of successive inbound webhooks do not decrease,
  any two events of the log with \<open>e1.id < e2.id\<close> have
  \<open>e1.receivedAt \<le> e2.receivedAt\<close>.
\<close>

theorem receivedAt_monotone:
  assumes "sorted (clock_readings acts)"
  shows "\<forall>e1\<in>set (webhooks (snd (run acts (init cfg)))).
         \<forall>e2\<in>set (webhooks (snd (run acts (init cfg)))).
           ev_id e1 < ev_id e2 \<longrightarrow> receivedAt e1 \<le> receivedAt e2"
proof (intro ballI impI)
  let ?log = "webhooks (snd (run acts (init cfg)))"
  fix e1 e2
  assume e1: "e1 \<in> set ?log" and e2: "e2 \<in> set ?log" and lt: "ev_id e1 < ev_id e2"
  have ids: "map ev_id ?log = [1 ..< Suc (length ?log)]" by (rule reachable_ids)
  have times: "sorted (map receivedAt ?log)"
    using assms by (simp add: run_receivedAt init_fields)
  from e1 obtain i where i: "i < length ?log" "?log ! i = e1" by (auto simp: in_set_conv_nth)
  from e2 obtain j where j: "j < length ?log" "?log ! j = e2" by (auto simp: in_set_conv_nth)
  have "ev_id e1 = Suc i"
    using nth_map[of i ?log ev_id] i unfolding ids by (simp del: upt_Suc)
  moreover have "ev_id e2 = Suc j"
    using nth_map[of j ?log ev_id] j unfolding ids by (simp del: upt_Suc)
  ultimately have "i \<le> j" using lt by simp
  then have "map receivedAt ?log ! i \<le> map receivedAt ?log ! j"
    using times j(1) by (simp add: sorted_iff_nth_mono del: upt_Suc)
  then show "receivedAt e1 \<le> receivedAt e2"
    using i j by simp
qed

theorem receivedAt_monotone_witness:
  "receivedAt (webhooks (snd (run [Receive \<lparr>req_headers = [], req_body = JNull\<rparr> 10,
                                    Receive \<lparr>req_headers = [], req_body = JNull\<rparr> 20] (init []))) ! 0)
   \<le> receivedAt (webhooks (snd (run [Receive \<lparr>req_headers = [], req_body = JNull\<rparr> 10,
                                    Receive \<lparr>req_headers = [], req_body = JNull\<rparr> 20] (init []))) ! 1)"
proof -
  let ?acts = "[Receive \<lparr>req_headers = [], req_body = JNull\<rparr> 10,
                Receive \<lparr>req_headers = [], req_body = JNull\<rparr> 20]"
  let ?log = "webhooks (snd (run ?acts (init [])))"
  have srt: "sorted (clock_readings ?acts)" by simp
  have log: "?log =
     [\<lparr>ev_id = 1, receivedAt = 10,
       ev_headers = [(ustr ''content-type'', None), (ustr ''user-agent'', None)],
       ev_body = JNull\<rparr>,
      \<lparr>ev_id = 2, receivedAt = 20,
       ev_headers = [(ustr ''content-type'', None), (ustr ''user-agent'', None)],
       ev_body = JNull\<rparr>]"
    by (simp add: case_prod_beta receive_fields init_fields make_event_def)
  have "?log ! 0 \<in> set ?log" "?log ! 1 \<in> set ?log" "ev_id (?log ! 0) < ev_id (?log ! 1)"
    unfolding log by simp_all
  with receivedAt_monotone[OF srt, of "[]"] show ?thesis by blast
qed

section \<open>Frame of the config operations\<close>

lemma get_config_cong:
  "map_of cfg' n = map_of cfg n \<Longrightarrow> get_config n cfg' = get_config n cfg"
  by (simp add: get_config_def get_prop_def)

lemma save_config_frame:
  assumes "\<forall>nm. sb_name b = Some (JStr nm) \<longrightarrow> n \<noteq> trim nm"
  shows "map_of (snd (save_config b cfg)) n = map_of cfg n"
proof (cases b)
  case (fields nmv rl)
  show ?thesis
  proof (cases nmv)
    case None
    then show ?thesis by (simp add: fields save_config_def truthy_opt_def)
  next
    case (Some v)
    show ?thesis
    proof (cases v)
      case (JStr nm)
      with assms fields Some have "n \<noteq> trim nm" by simp
      then show ?thesis
        unfolding fields Some JStr save_config_string
        by (simp add: map_of_set_prop split: option.splits json.splits)
    qed (simp_all add: fields Some save_config_def truthy_opt_def)
  qed
qed

lemma delete_config_frame:
  "n \<noteq> d \<Longrightarrow> map_of (snd (delete_config d cfg)) n = map_of cfg n"
  by (simp add: delete_config_def map_of_delete_prop split: property.splits)

text \<open>
  C10: \<open>save(name, rules)\<close> leaves the rule list of every name other than
  \<open>trim(name)\<close> unchanged, and \<open>delete(name)\<close> leaves the rule list of every other
  name unchanged, both in the document and in what \<open>get\<close> answers; neither operation
  touches the event log, the subscriber list or what was written to a subscriber. A save
  whose name is not a string writes nothing at all.
\<close>

theorem config_frame:
  "((\<forall>nm. sb_name b = Some (JStr nm) \<longrightarrow> n \<noteq> trim nm) \<longrightarrow>
      map_of (configs_file (snd (step (SaveConfig b) s))) n = map_of (configs_file s) n \<and>
      get_config n (configs_file (snd (step (SaveConfig b) s))) = get_config n (configs_file s)) \<and>
   (n \<noteq> d \<longrightarrow>
      map_of (configs_file (snd (step (DeleteConfig d) s))) n = map_of (configs_file s) n \<and>
      get_config n (configs_file (snd (step (DeleteConfig d) s))) = get_config n (configs_file s)) \<and>
   webhooks (snd (step (SaveConfig b) s)) = webhooks s \<and>
   sseClients (snd (step (SaveConfig b) s)) = sseClients s \<and>
   written (snd (step (SaveConfig b) s)) = written s \<and>
   webhooks (snd (step (DeleteConfig d) s)) = webhooks s \<and>
   sseClients (snd (step (DeleteConfig d) s)) = sseClients s \<and>
   written (snd (step (DeleteConfig d) s)) = written s"
proof -
  have cs: "configs_file (snd (step (SaveConfig b) s)) = snd (save_config b (configs_file s))"
    by (simp add: case_prod_beta)
  have cd: "configs_file (snd (step (DeleteConfig d) s)) = snd (delete_config d (configs_file s))"
    by (simp add: case_prod_beta)
  have rest: "webhooks (snd (step (SaveConfig b) s)) = webhooks s"
    "sseClients (snd (step (SaveConfig b) s)) = sseClients s"
    "written (snd (step (SaveConfig b) s)) = written s"
    "webhooks (snd (step (DeleteConfig d) s)) = webhooks s"
    "sseClients (snd (step (DeleteConfig d) s)) = sseClients s"
    "written (snd (step (DeleteConfig d) s)) = written s"
    by (simp_all add: case_prod_beta)
  have sv: "(\<forall>nm. sb_name b = Some (JStr nm) \<longrightarrow> n \<noteq> trim nm) \<longrightarrow>
      map_of (snd (save_config b (configs_file s))) n = map_of (configs_file s) n \<and>
      get_config n (snd (save_config b (configs_file s))) = get_config n (configs_file s)"
    using save_config_frame[of b n "configs_file s"] get_config_cong by blast
  have dl: "n \<noteq> d \<longrightarrow>
      map_of (snd (delete_config d (configs_file s))) n = map_of (configs_file s) n \<and>
      get_config n (snd (delete_config d (configs_file s))) = get_config n (configs_file s)"
    using delete_config_frame[of n d "configs_file s"] get_config_cong by blast
  show ?thesis
    unfolding cs cd rest using sv dl by blast
qed

theorem config_frame_witness:
  "map_of (configs_file (snd (step (SaveConfig \<lparr>sb_name = Some (JStr (ustr '' a '')),
                                               sb_rules = Some (JArr [])\<rparr>)
                               (init [(ustr ''b'', [JNum 1])])))) (ustr ''b'') = Some [JNum 1] \<and>
   map_of (configs_file (snd (step (DeleteConfig (ustr ''a''))
                               (init [(ustr ''a'', []), (ustr ''b'', [JNum 1])])))) (ustr ''b'') =
     Some [JNum 1]"
proof -
  have t: "trim (ustr '' a '') = ustr ''a''"
    by (simp add: trim_def is_ws_def ustr_code)
  have ne: "ustr ''b'' \<noteq> ustr ''a''" by (simp add: ustr_code)
  have "\<forall>nm. sb_name \<lparr>sb_name = Some (JStr (ustr '' a '')), sb_rules = Some (JArr [])\<rparr> =
          Some (JStr nm) \<longrightarrow> ustr ''b'' \<noteq> trim nm"
    using t ne by simp
  with config_frame[of "\<lparr>sb_name = Some (JStr (ustr '' a '')), sb_rules = Some (JArr [])\<rparr>"
      "ustr ''b''" "init [(ustr ''b'', [JNum 1])]" "ustr ''a''"]
    config_frame[of "\<lparr>sb_name = None, sb_rules = None\<rparr>"
      "ustr ''b''" "init [(ustr ''a'', []), (ustr ''b'', [JNum 1])]" "ustr ''a''"] ne
  show ?thesis by (simp add: init_fields)
qed

section \<open>Recorded headers and body\<close>

text \<open>
  C6: the event an inbound webhook records has a headers object with the two keys
  \<open>content-type\<close> and \<open>user-agent\<close>, holding the values of the request, and the body
  of the request unchanged; every other header is discarded, so two requests that agree
  on these two headers and on the body are recorded, answered and broadcast alike.
\<close>

theorem recorded_headers_and_body:
  "map fst (ev_headers (last (webhooks (snd (receive req now s))))) =
     [ustr ''content-type'', ustr ''user-agent''] \<and>
   ev_headers (last (webhooks (snd (receive req now s)))) =
     [(ustr ''content-type'', map_of (req_headers req) (ustr ''content-type'')),
      (ustr ''user-agent'', map_of (req_headers req) (ustr ''user-agent''))] \<and>
   ev_body (last (webhooks (snd (receive req now s)))) = req_body req \<and>
   (map_of (req_headers req') (ustr ''content-type'') = map_of (req_headers req) (ustr ''content-type'') \<and>
    map_of (req_headers req') (ustr ''user-agent'') = map_of (req_headers req) (ustr ''user-agent'') \<and>
    req_body req' = req_body req \<longrightarrow>
    receive req' now s = receive req now s)"
  by (simp add: receive_fields) (simp add: receive_def make_event_def Let_def)

theorem recorded_headers_and_body_witness:
  "receive \<lparr>req_headers = [(ustr ''x-secret'', ustr ''abc''),
                            (ustr ''content-type'', ustr ''application/json'')],
            req_body = JObj [(ustr ''foo'', JNum 1)]\<rparr> 5 (init []) =
   receive \<lparr>req_headers = [(ustr ''content-type'', ustr ''application/json'')],
            req_body = JObj [(ustr ''foo'', JNum 1)]\<rparr> 5 (init []) \<and>
   ev_headers (last (webhooks (snd (receive
       \<lparr>req_headers = [(ustr ''x-secret'', ustr ''abc''),
                        (ustr ''content-type'', ustr ''application/json'')],
        req_body = JObj [(ustr ''foo'', JNum 1)]\<rparr> 5 (init []))))) =
     [(ustr ''content-type'', Some (ustr ''application/json'')), (ustr ''user-agent'', None)]"
  using recorded_headers_and_body[of
      "\<lparr>req_headers = [(ustr ''x-secret'', ustr ''abc''),
                        (ustr ''content-type'', ustr ''application/json'')],
        req_body = JObj [(ustr ''foo'', JNum 1)]\<rparr>" 5 "init []"
      "\<lparr>req_headers = [(ustr ''content-type'', ustr ''application/json'')],
        req_body = JObj [(ustr ''foo'', JNum 1)]\<rparr>"]
  by (simp add: ustr_code)

section \<open>Relay outcomes\<close>

text \<open>
  C8: a relay request whose url is missing or empty gets 400 and no outbound call is
  made; when the outbound call fails, the reply is 502 with \<open>{ok: false, error}\<close>
  carrying the message of the failure; when it completes, the reply is \<open>{ok: true}\<close>
  with the remote status code, status text and body, the body decoded as JSON when
  \<open>JSON.parse\<close> accepts it and the raw text otherwise.
\<close>

theorem relay_outcomes:
  "((sb_url b = None \<or> sb_url b = Some (JStr [])) \<longrightarrow>
      send_webhook fetch parse b = (fail 400 ''Missing target URL'', [])) \<and>
   (sb_url b = Some url \<and> truthy url \<and> fetch url (payload_or_empty (sb_payload b)) = Inl msg \<longrightarrow>
      send_webhook fetch parse b =
        (reply 502 [(ustr ''ok'', JBool False), (ustr ''error'', JStr msg)],
         [(url, payload_or_empty (sb_payload b))])) \<and>
   (sb_url b = Some url \<and> truthy url \<and> fetch url (payload_or_empty (sb_payload b)) = Inr r \<longrightarrow>
      send_webhook fetch parse b =
        (reply 200 [(ustr ''ok'', JBool True),
                    (ustr ''status'', JNum (int (rem_status r))),
                    (ustr ''statusText'', JStr (rem_statusText r)),
                    (ustr ''body'', (case parse (rem_text r) of
                                       Some v \<Rightarrow> v | None \<Rightarrow> JStr (rem_text r)))],
         [(url, payload_or_empty (sb_payload b))]))"
  by (auto simp: send_webhook_def Let_def)

theorem relay_outcomes_witness:
  "send_webhook (\<lambda>u p. Inl (ustr ''fetch failed'')) (\<lambda>t. None)
     \<lparr>sb_url = Some (JStr []), sb_payload = None\<rparr> = (fail 400 ''Missing target URL'', []) \<and>
   send_webhook (\<lambda>u p. Inl (ustr ''fetch failed'')) (\<lambda>t. None)
     \<lparr>sb_url = Some (JStr (ustr ''http://bad.invalid'')), sb_payload = None\<rparr> =
     (reply 502 [(ustr ''ok'', JBool False), (ustr ''error'', JStr (ustr ''fetch failed''))],
      [(JStr (ustr ''http://bad.invalid''), JObj [])]) \<and>
   send_webhook (\<lambda>u p. Inr \<lparr>rem_status = 404, rem_statusText = ustr ''Not Found'',
                             rem_text = ustr ''nope''\<rparr>) (\<lambda>t. None)
     \<lparr>sb_url = Some (JStr (ustr ''http://a.example'')), sb_payload = Some (JNum 3)\<rparr> =
     (reply 200 [(ustr ''ok'', JBool True), (ustr ''status'', JNum 404),
                 (ustr ''statusText'', JStr (ustr ''Not Found'')),
                 (ustr ''body'', JStr (ustr ''nope''))],
      [(JStr (ustr ''http://a.example''), JNum 3)])"
  using relay_outcomes[of "\<lparr>sb_url = Some (JStr []), sb_payload = None\<rparr>"
      "\<lambda>u p. Inl (ustr ''fetch failed'')" "\<lambda>t. None"]
    relay_outcomes[of "\<lparr>sb_url = Some (JStr (ustr ''http://bad.invalid'')), sb_payload = None\<rparr>"
      "\<lambda>u p. Inl (ustr ''fetch failed'')" "\<lambda>t. None" "JStr (ustr ''http://bad.invalid'')"
      "ustr ''fetch failed''"]
    relay_outcomes[of "\<lparr>sb_url = Some (JStr (ustr ''http://a.example'')), sb_payload = Some (JNum 3)\<rparr>"
      "\<lambda>u p. Inr \<lparr>rem_status = 404, rem_statusText = ustr ''Not Found'',
                             rem_text = ustr ''nope''\<rparr>" "\<lambda>t. None"
      "JStr (ustr ''http://a.example'')" _
      "\<lparr>rem_status = 404, rem_statusText = ustr ''Not Found'', rem_text = ustr ''nope''\<rparr>"]
  by (simp add: payload_or_empty_def ustr_code)

end
